theory Spec2Isabelle
  imports Complex_Main
begin

section \<open>ParkFasto backend: the parking controller\<close>

text \<open>
  A shallow embedding of \<^verbatim>\<open>src/controller/parking.controller.js\<close>. The three Mongoose
  collections become one explicit database state that every handler takes and returns;
  \<^verbatim>\<open>new Date()\<close> becomes a parameter \<open>now\<close> (milliseconds since the epoch); the
  \<^verbatim>\<open>try { ... } catch (error) { next(error) }\<close> around every handler becomes the
  outcome \<open>Next\<close>. Numbers of the documents are integers (counts, prices in whole
  currency units, timestamps), on which JavaScript's double arithmetic is exact.
\<close>

subsection \<open>Documents\<close>

datatype session_status = Booked | Active | Completed | Canceled

record lot =
  lot_name :: string
  totalSpots :: int
  occupiedSpots :: int
  lot_status :: string
  pricePerHour :: int
  lot_type :: string

text \<open>
  A session document. \<open>parkingLot\<close> is the reference (the lot's id), \<open>endTime\<close> and
  \<open>totalAmount\<close> are unset until a handler assigns them, and \<open>createdAt\<close> is the
  creation timestamp that \<^verbatim>\<open>.sort({ createdAt: -1 })\<close> orders by.
\<close>

record session =
  user :: nat
  parkingLot :: nat
  status :: session_status
  vehicleType :: "string option"
  slots :: int
  startTime :: int
  endTime :: "int option"
  totalAmount :: "int option"
  createdAt :: int

text \<open>
  A notification: \<open>n_place\<close> is the lot name spliced into the message
  (\<^verbatim>\<open>lot?.name || "the parking lot"\<close>), \<open>n_total\<close> the amount spliced into the check-out
  message, \<open>n_lot\<close> and \<open>n_session\<close> the metadata.
\<close>

record notification =
  n_user :: nat
  n_type :: string
  n_title :: string
  n_place :: string
  n_total :: "int option"
  n_lot :: "nat option"
  n_session :: nat

text \<open>
  The database. Lots are keyed by id and may be absent (a deleted or unknown lot).
  Sessions are never deleted by the controller, so the collection is an append-only list
  in insertion order and a session's \<^verbatim>\<open>_id\<close> is its position in it.
\<close>

record db =
  lots :: "nat \<rightharpoonup> lot"
  sessions :: "session list"
  notifications :: "notification list"

subsection \<open>Schema defaults\<close>

text \<open>
  \<^verbatim>\<open>ParkingSession.create\<close> fills the fields its argument leaves out from the defaults
  of the Mongoose schema in \<^verbatim>\<open>models/ParkingSession.model.js\<close>, which is not among the
  sources. The defaults are therefore a parameter of the handlers that rely on them. A
  Mongoose default may be a function evaluated at creation (\<^verbatim>\<open>Date.now\<close>), so the
  default of \<open>startTime\<close> is a function of the clock.
\<close>

record session_schema =
  default_status :: session_status
  default_slots :: int
  default_startTime :: "int \<Rightarrow> int"
  default_vehicleType :: "string option"
  default_totalAmount :: "int option"

text \<open>
  Modelled from the spec: the schema of \<^verbatim>\<open>models/ParkingSession.model.js\<close> is missing.
  The spec's data model gives \<open>slots\<close> "integer \<open>\<ge>\<close> 1, default 1" and \<open>totalAmount\<close>
  "computed only at completion"; its operation table gives a session made by
  \<open>startSession\<close> "status=active, slots=1, startTime=now".
\<close>

definition spec_schema :: session_schema where
  "spec_schema =
     \<lparr>default_status = Active, default_slots = 1, default_startTime = (\<lambda>now. now),
      default_vehicleType = None, default_totalAmount = None\<rparr>"

subsection \<open>Requests and responses\<close>

text \<open>
  An id as it arrives in a request body that the handler does not validate: a value that
  Mongoose casts to an \<^verbatim>\<open>ObjectId\<close>, or one that it cannot cast (such as the string
  \<^verbatim>\<open>"abc"\<close>). A query on an id that cannot be cast is rejected with a
  \<open>CastError\<close>.
\<close>

datatype body_id = ObjectId nat | Malformed

text \<open>
  \<^verbatim>\<open>Number(slots)\<close> as the handler sees it: \<open>NaN\<close>, a whole number, or any other
  number (fractional or infinite).
\<close>

datatype jsnumber = JNaN | JWhole int | JOther

text \<open>
  The body of \<^verbatim>\<open>POST /book\<close>. \<open>None\<close> in \<open>req_parkingLotId\<close>, \<open>req_startTime\<close> and
  \<open>req_endTime\<close> is a missing (falsy) field; \<open>None\<close> in \<open>req_slots\<close> is
  \<^verbatim>\<open>undefined\<close>, which the destructuring default replaces by 1. \<open>req_vehicleType\<close> is
  a field a client may send along.
\<close>

record book_body =
  req_parkingLotId :: "nat option"
  req_slots :: "jsnumber option"
  req_startTime :: "int option"
  req_endTime :: "int option"
  req_vehicleType :: "string option"

record response =
  code :: nat
  success :: bool
  message :: "string option"
  data :: "(nat \<times> session) option"

datatype js_error = TypeError | CastError

datatype outcome = Reply response | Next js_error

definition fail :: "nat \<Rightarrow> string \<Rightarrow> outcome" where
  "fail c m = Reply \<lparr>code = c, success = False, message = Some m, data = None\<rparr>"

definition ok :: "nat \<Rightarrow> string option \<Rightarrow> nat \<times> session \<Rightarrow> outcome" where
  "ok c m d = Reply \<lparr>code = c, success = True, message = m, data = Some d\<rparr>"

fun http_status :: "outcome \<Rightarrow> nat option" where
  "http_status (Reply r) = Some (code r)"
| "http_status (Next e) = None"

subsection \<open>Queries\<close>

text \<open>
  A query is a predicate on (id, document). \<open>findOne\<close> returns the first match in
  insertion order; \<open>findOne_newest\<close> is \<^verbatim>\<open>findOne(q).sort({ createdAt: -1 })\<close>,
  a match with the greatest \<open>createdAt\<close> (of several such, the first in insertion order).
\<close>

definition findOne :: "(nat \<times> session \<Rightarrow> bool) \<Rightarrow> session list \<Rightarrow> (nat \<times> session) option" where
  "findOne q xs = find q (enumerate 0 xs)"

fun newest :: "(nat \<times> session) list \<Rightarrow> (nat \<times> session) option" where
  "newest [] = None"
| "newest (x # xs) =
     (case newest xs of
        None \<Rightarrow> Some x
      | Some y \<Rightarrow> if createdAt (snd x) < createdAt (snd y) then Some y else Some x)"

definition findOne_newest :: "(nat \<times> session \<Rightarrow> bool) \<Rightarrow> session list \<Rightarrow> (nat \<times> session) option" where
  "findOne_newest q xs = newest (filter q (enumerate 0 xs))"

definition save :: "nat \<Rightarrow> session \<Rightarrow> db \<Rightarrow> db" where
  "save sid s st = st\<lparr>sessions := (sessions st)[sid := s]\<rparr>"

text \<open>The fields a caller of \<^verbatim>\<open>ParkingSession.create\<close> may give.\<close>

record session_input =
  in_user :: nat
  in_parkingLot :: nat
  in_status :: "session_status option"
  in_vehicleType :: "string option"
  in_slots :: "int option"
  in_startTime :: "int option"
  in_endTime :: "int option"

definition ParkingSession_create ::
  "session_schema \<Rightarrow> int \<Rightarrow> session_input \<Rightarrow> db \<Rightarrow> (nat \<times> session) \<times> db" where
  "ParkingSession_create sch now inp st =
     (let doc = \<lparr>user = in_user inp,
                 parkingLot = in_parkingLot inp,
                 status = (case in_status inp of None \<Rightarrow> default_status sch | Some v \<Rightarrow> v),
                 vehicleType = (case in_vehicleType inp of None \<Rightarrow> default_vehicleType sch | Some v \<Rightarrow> Some v),
                 slots = (case in_slots inp of None \<Rightarrow> default_slots sch | Some v \<Rightarrow> v),
                 startTime = (case in_startTime inp of None \<Rightarrow> default_startTime sch now | Some v \<Rightarrow> v),
                 endTime = in_endTime inp,
                 totalAmount = default_totalAmount sch,
                 createdAt = now\<rparr>
      in ((length (sessions st), doc), st\<lparr>sessions := sessions st @ [doc]\<rparr>))"

definition Notification_create :: "notification \<Rightarrow> db \<Rightarrow> db" where
  "Notification_create n st = st\<lparr>notifications := notifications st @ [n]\<rparr>"

text \<open>\<^verbatim>\<open>x?.name || "the parking lot"\<close>: the fallback also replaces an empty name.\<close>

definition place_name :: "lot option \<Rightarrow> string" where
  "place_name l =
     (case l of
        None \<Rightarrow> ''the parking lot''
      | Some x \<Rightarrow> if lot_name x = [] then ''the parking lot'' else lot_name x)"

subsection \<open>Lot occupancy\<close>

definition resolveLotStatus :: "int \<Rightarrow> int \<Rightarrow> string" where
  "resolveLotStatus occupied capacity = (if occupied \<ge> capacity then ''full'' else ''available'')"

text \<open>
  \<^verbatim>\<open>ParkingLot.findByIdAndUpdate(id, update, { new: true })\<close>: the updated document, or
  \<open>None\<close> (null) when no lot has this id.
\<close>

definition findByIdAndUpdate :: "nat \<Rightarrow> (lot \<Rightarrow> lot) \<Rightarrow> db \<Rightarrow> lot option \<times> db" where
  "findByIdAndUpdate lid upd st =
     (case lots st lid of
        None \<Rightarrow> (None, st)
      | Some l \<Rightarrow> (Some (upd l), st\<lparr>lots := (lots st)(lid \<mapsto> upd l)\<rparr>))"

definition syncLotStatus :: "nat \<Rightarrow> int \<Rightarrow> db \<Rightarrow> lot option \<times> db" where
  "syncLotStatus parkingLotId occupiedDelta st =
     (case findByIdAndUpdate parkingLotId
             (\<lambda>l. l\<lparr>occupiedSpots := occupiedSpots l + occupiedDelta\<rparr>) st of
        (None, st1) \<Rightarrow> (None, st1)
      | (Some updatedLot, st1) \<Rightarrow>
          (let newStatus = resolveLotStatus (occupiedSpots updatedLot) (totalSpots updatedLot)
           in if lot_status updatedLot \<noteq> newStatus
              then (Some updatedLot,
                    snd (findByIdAndUpdate parkingLotId (\<lambda>l. l\<lparr>lot_status := newStatus\<rparr>) st1))
              else (Some updatedLot, st1)))"

subsection \<open>Billing\<close>

text \<open>
  \<^verbatim>\<open>Math.max(1, Math.ceil((endTime - startTime) / (1000 * 60 * 60)))\<close> on integer
  milliseconds; the ceiling of the quotient is written with integer division.
\<close>

definition durationHours :: "int \<Rightarrow> int \<Rightarrow> int" where
  "durationHours end_ms start_ms = max 1 (- ((- (end_ms - start_ms)) div (1000 * 60 * 60)))"

text \<open>\<^verbatim>\<open>Math.max(1, Number(session.slots) || 1)\<close>\<close>

definition slotsToRelease :: "session \<Rightarrow> int" where
  "slotsToRelease s = max 1 (if slots s = 0 then 1 else slots s)"

text \<open>\<^verbatim>\<open>lot.occupiedSpots || 0\<close>: a falsy count reads as 0.\<close>

definition or_zero :: "int \<Rightarrow> int" where
  "or_zero x = (if x = 0 then 0 else x)"

subsection \<open>Handlers\<close>

text \<open>
  Each handler takes the clock, the authenticated caller (\<^verbatim>\<open>req.user._id\<close>) where the
  source reads it, the fields of the request, and the database; it returns what it sent
  and the database it left. \<^verbatim>\<open>.populate("parkingLot")\<close> replaces the reference by the
  lot document, or by null when the lot is gone: here the lookup \<open>lots st (parkingLot s)\<close>.
  Reading a property of null throws a \<open>TypeError\<close>, which the handler's
  \<^verbatim>\<open>catch\<close> forwards with \<^verbatim>\<open>next(error)\<close>.

  \<open>guardEntry\<close> takes \<open>userId\<close> and \<open>parkingLotId\<close> as they arrive in the body. The
  lookup of the lot (\<^verbatim>\<open>ParkingLot.findById(parkingLotId)\<close>) comes first and is rejected
  for an id that cannot be cast, then the lookup of the session is rejected for such a
  \<open>userId\<close>; either way the \<open>CastError\<close> reaches \<^verbatim>\<open>next(error)\<close> before anything is
  written. The other handlers are stated for ids that are well formed.
\<close>

definition guardEntry ::
  "session_schema \<Rightarrow> int \<Rightarrow> body_id \<Rightarrow> body_id \<Rightarrow> db \<Rightarrow> outcome \<times> db" where
  "guardEntry sch now userId parkingLotId st =
     (case parkingLotId of
        Malformed \<Rightarrow> (Next CastError, st)
      | ObjectId lotId \<Rightarrow>
     (let lot = lots st lotId in
      case userId of
        Malformed \<Rightarrow> (Next CastError, st)
      | ObjectId uid \<Rightarrow>
     (case findOne_newest
             (\<lambda>(i, s). user s = uid \<and> parkingLot s = lotId \<and> status s = Booked)
             (sessions st) of
        None \<Rightarrow>
          (let (d, st1) = ParkingSession_create sch now
                            \<lparr>in_user = uid, in_parkingLot = lotId,
                             in_status = Some Active, in_vehicleType = None, in_slots = None,
                             in_startTime = Some now, in_endTime = None\<rparr> st;
               st2 = snd (syncLotStatus lotId 1 st1);
               st3 = Notification_create
                       \<lparr>n_user = uid, n_type = ''checkin'', n_title = ''Check-in Successful'',
                        n_place = place_name lot, n_total = None,
                        n_lot = Some lotId, n_session = fst d\<rparr> st2
           in (ok 200 (Some ''Entry successful'') d, st3))
      | Some (sid, s) \<Rightarrow>
          (let session = s\<lparr>status := Active, startTime := now\<rparr>;
               st1 = save sid session st;
               st3 = Notification_create
                       \<lparr>n_user = uid, n_type = ''checkin'', n_title = ''Check-in Successful'',
                        n_place = place_name lot, n_total = None,
                        n_lot = Some lotId, n_session = sid\<rparr> st1
           in (ok 200 (Some ''Entry successful'') (sid, session), st3)))))"

definition guardExit :: "int \<Rightarrow> nat \<Rightarrow> nat \<Rightarrow> db \<Rightarrow> outcome \<times> db" where
  "guardExit now userId parkingLotId st =
     (case findOne
             (\<lambda>(i, s). user s = userId \<and> parkingLot s = parkingLotId \<and> status s = Active)
             (sessions st) of
        None \<Rightarrow> (fail 404 ''No active session found for this user'', st)
      | Some (sid, s) \<Rightarrow>
          (case lots st (parkingLot s) of
             None \<Rightarrow> (Next TypeError, st)
           | Some l \<Rightarrow>
               (let amount = durationHours now (startTime s) * pricePerHour l;
                    session = s\<lparr>endTime := Some now, totalAmount := Some amount,
                               status := Completed\<rparr>;
                    st1 = save sid session st;
                    st2 = snd (syncLotStatus parkingLotId (- slotsToRelease session) st1);
                    st3 = Notification_create
                            \<lparr>n_user = userId, n_type = ''checkout'',
                             n_title = ''Check-out Successful'',
                             n_place = place_name (Some l), n_total = Some amount,
                             n_lot = Some parkingLotId, n_session = sid\<rparr> st2
                in (ok 200 (Some ''Exit successful'') (sid, session), st3))))"

definition startSession ::
  "session_schema \<Rightarrow> int \<Rightarrow> nat \<Rightarrow> nat \<Rightarrow> string option \<Rightarrow> db \<Rightarrow> outcome \<times> db" where
  "startSession sch now caller parkingLotId vehicle st =
     (case findOne (\<lambda>(i, s). user s = caller \<and> status s = Active) (sessions st) of
        Some existingSession \<Rightarrow> (fail 400 ''User already has an active session'', st)
      | None \<Rightarrow>
          (let (d, st1) = ParkingSession_create sch now
                            \<lparr>in_user = caller, in_parkingLot = parkingLotId,
                             in_status = None, in_vehicleType = vehicle, in_slots = None,
                             in_startTime = None, in_endTime = None\<rparr> st;
               st2 = snd (syncLotStatus parkingLotId 1 st1)
           in (ok 201 None d, st2)))"

definition requestedSlots :: "book_body \<Rightarrow> jsnumber" where
  "requestedSlots b = (case req_slots b of None \<Rightarrow> JWhole 1 | Some v \<Rightarrow> v)"

definition required_msg :: string where
  "required_msg = ''parkingLotId, startTime and endTime are required''"

definition slots_msg :: string where
  "slots_msg = ''slots must be a positive whole number''"

text \<open>
  In \<^verbatim>\<open>!Number.isInteger(requestedSlots) || requestedSlots < 1\<close> the comparison is
  evaluated only for a whole number.
\<close>

definition bookParking ::
  "session_schema \<Rightarrow> int \<Rightarrow> nat \<Rightarrow> book_body \<Rightarrow> db \<Rightarrow> outcome \<times> db" where
  "bookParking sch now caller b st =
     (case req_parkingLotId b of
        None \<Rightarrow> (fail 400 required_msg, st)
      | Some parkingLotId \<Rightarrow>
     (case req_startTime b of
        None \<Rightarrow> (fail 400 required_msg, st)
      | Some start_ms \<Rightarrow>
     (case req_endTime b of
        None \<Rightarrow> (fail 400 required_msg, st)
      | Some end_ms \<Rightarrow>
     (case requestedSlots b of
        JNaN \<Rightarrow> (fail 400 slots_msg, st)
      | JOther \<Rightarrow> (fail 400 slots_msg, st)
      | JWhole n \<Rightarrow>
          if n < 1 then (fail 400 slots_msg, st)
          else
            (case lots st parkingLotId of
               None \<Rightarrow> (fail 404 ''Parking lot not found'', st)
             | Some l \<Rightarrow>
                 (let available = totalSpots l - or_zero (occupiedSpots l) in
                  if available < n
                  then (fail 400 ''Not enough available slots for requested booking'', st)
                  else
                    (let (d, st1) = ParkingSession_create sch now
                                      \<lparr>in_user = caller, in_parkingLot = parkingLotId,
                                       in_status = Some Booked,
                                       in_vehicleType =
                                         Some (if lot_type l = ''bike'' then ''bike'' else ''car''),
                                       in_slots = Some n,
                                       in_startTime = Some start_ms,
                                       in_endTime = Some end_ms\<rparr> st;
                         st2 = snd (syncLotStatus parkingLotId n st1)
                     in (ok 201 None d, st2))))))))"

text \<open>
  In \<open>cancelBooking\<close> the lot passed to the sync and to the notification is
  \<^verbatim>\<open>session.parkingLot?._id || session.parkingLot\<close>: the id of the populated lot, or
  null when the lot is gone; a sync on a null id finds no lot.
\<close>

definition cancelBooking :: "int \<Rightarrow> nat \<Rightarrow> nat \<Rightarrow> db \<Rightarrow> outcome \<times> db" where
  "cancelBooking now caller bookingId st =
     (case findOne (\<lambda>(i, s). i = bookingId \<and> user s = caller \<and> status s = Booked)
             (sessions st) of
        None \<Rightarrow> (fail 404 ''Booked session not found or cannot be canceled'', st)
      | Some (sid, s) \<Rightarrow>
          (let populated = lots st (parkingLot s);
               session = s\<lparr>status := Canceled, endTime := Some now\<rparr>;
               st1 = save sid session st;
               lotRef = (case populated of None \<Rightarrow> None | Some l \<Rightarrow> Some (parkingLot s));
               st2 = (case lotRef of
                        None \<Rightarrow> st1
                      | Some lid \<Rightarrow> snd (syncLotStatus lid (- slotsToRelease session) st1));
               st3 = Notification_create
                       \<lparr>n_user = caller, n_type = ''booking'', n_title = ''Booking Canceled'',
                        n_place = place_name populated, n_total = None,
                        n_lot = lotRef, n_session = sid\<rparr> st2
           in (ok 200 None (sid, session), st3)))"

definition completeSession :: "int \<Rightarrow> nat \<Rightarrow> db \<Rightarrow> outcome \<times> db" where
  "completeSession now caller st =
     (case findOne (\<lambda>(i, s). user s = caller \<and> status s = Active) (sessions st) of
        None \<Rightarrow> (fail 404 ''No active session found'', st)
      | Some (sid, s) \<Rightarrow>
          (case lots st (parkingLot s) of
             None \<Rightarrow> (Next TypeError, st)
           | Some l \<Rightarrow>
               (let amount = durationHours now (startTime s) * pricePerHour l;
                    session = s\<lparr>endTime := Some now, totalAmount := Some amount,
                               status := Completed\<rparr>;
                    st1 = save sid session st;
                    st2 = snd (syncLotStatus (parkingLot s) (- slotsToRelease session) st1)
                in (ok 200 None (sid, session), st2))))"

subsection \<open>The router\<close>

text \<open>
  The mutating routes of the router, each with the caller's id where the handler reads
  \<^verbatim>\<open>req.user._id\<close>, and a run of requests, each at its own time.
\<close>

datatype request =
    StartSession nat nat "string option"
  | BookParking nat book_body
  | GuardEntry body_id body_id
  | GuardExit nat nat
  | CancelBooking nat nat
  | CompleteSession nat

fun handle :: "session_schema \<Rightarrow> int \<Rightarrow> request \<Rightarrow> db \<Rightarrow> outcome \<times> db" where
  "handle sch now (StartSession caller parkingLotId vehicle) st =
     startSession sch now caller parkingLotId vehicle st"
| "handle sch now (BookParking caller b) st = bookParking sch now caller b st"
| "handle sch now (GuardEntry userId parkingLotId) st = guardEntry sch now userId parkingLotId st"
| "handle sch now (GuardExit userId parkingLotId) st = guardExit now userId parkingLotId st"
| "handle sch now (CancelBooking caller bookingId) st = cancelBooking now caller bookingId st"
| "handle sch now (CompleteSession caller) st = completeSession now caller st"

fun run :: "session_schema \<Rightarrow> (int \<times> request) list \<Rightarrow> db \<Rightarrow> db" where
  "run sch [] st = st"
| "run sch ((now, r) # rs) st = run sch rs (snd (handle sch now r st))"

subsection \<open>Predicates on states\<close>

text \<open>The stored status of a lot agrees with its stored counts.\<close>

definition lot_synced :: "lot \<Rightarrow> bool" where
  "lot_synced l \<longleftrightarrow> lot_status l = resolveLotStatus (occupiedSpots l) (totalSpots l)"

subsection \<open>Example states\<close>

text \<open>
  A two-space car park at 100 per hour, a database that holds only this lot, and a booking
  request for both of its spaces.
\<close>

definition example_lot :: lot where
  "example_lot =
     \<lparr>lot_name = ''Central'', totalSpots = 2, occupiedSpots = 0, lot_status = ''available'',
      pricePerHour = 100, lot_type = ''car''\<rparr>"

definition example_db :: db where
  "example_db = \<lparr>lots = [1 \<mapsto> example_lot], sessions = [], notifications = []\<rparr>"

definition example_body :: book_body where
  "example_body =
     \<lparr>req_parkingLotId = Some 1, req_slots = Some (JWhole 2), req_startTime = Some 1000,
      req_endTime = Some 2000, req_vehicleType = Some ''bike''\<rparr>"

text \<open>
  A session of user 7 in the example lot, active since time 0, and the database that
  holds the lot and this session.
\<close>

definition example_active :: session where
  "example_active =
     \<lparr>user = 7, parkingLot = 1, status = Active, vehicleType = Some ''car'', slots = 1,
      startTime = 0, endTime = None, totalAmount = None, createdAt = 0\<rparr>"

definition example_parked :: db where
  "example_parked =
     \<lparr>lots = [1 \<mapsto> example_lot\<lparr>occupiedSpots := 1\<rparr>], sessions = [example_active],
      notifications = []\<rparr>"

text \<open>
  A booking of user 7 for one space of the example lot, made at time 3 and not yet used,
  and the database that holds the lot and this booking.
\<close>

definition example_booked :: session where
  "example_booked =
     \<lparr>user = 7, parkingLot = 1, status = Booked, vehicleType = Some ''car'', slots = 1,
      startTime = 1000, endTime = Some 2000, totalAmount = None, createdAt = 3\<rparr>"

definition example_reserved :: db where
  "example_reserved =
     \<lparr>lots = [1 \<mapsto> example_lot\<lparr>occupiedSpots := 1\<rparr>], sessions = [example_booked],
      notifications = []\<rparr>"

text \<open>
  The database after the session of user 7 has been settled at 45 minutes, and a run of
  requests that all name this user, this session or this lot.
\<close>

definition example_settled :: db where
  "example_settled =
     \<lparr>lots = [1 \<mapsto> example_lot],
      sessions = [example_active\<lparr>endTime := Some 2700000, totalAmount := Some 100,
                                status := Completed\<rparr>],
      notifications = []\<rparr>"

definition example_requests :: "(int \<times> request) list" where
  "example_requests =
     [(3000000, CompleteSession 7), (3000001, GuardExit 7 1), (3000002, CancelBooking 7 0),
      (3000003, GuardEntry (ObjectId 7) (ObjectId 1)),
      (3000004, BookParking 7 example_body), (3000005, CompleteSession 7),
      (3000006, StartSession 7 1 None)]"

text \<open>
  Two guard entries of user 7 at the example lot without a booking, and a session that
  user 7 starts at a lot (9) that does not exist.
\<close>

definition example_two_entries :: db where
  "example_two_entries =
     run spec_schema
       [(0, GuardEntry (ObjectId 7) (ObjectId 1)), (10, GuardEntry (ObjectId 7) (ObjectId 1))]
       example_db"

definition example_orphan :: db where
  "example_orphan = snd (startSession spec_schema 0 7 9 None example_db)"

section \<open>Auxiliary facts\<close>

subsection \<open>Queries\<close>

lemma find_enumerate_Some:
  "find q (enumerate n xs) = Some (i, s) \<Longrightarrow> n \<le> i \<and> i < n + length xs \<and> xs ! (i - n) = s \<and> q (i, s)"
proof (induction xs arbitrary: n)
  case Nil
  then show ?case by simp
next
  case (Cons x xs)
  show ?case
  proof (cases "q (n, x)")
    case True
    with Cons.prems show ?thesis by auto
  next
    case False
    with Cons.prems have "find q (enumerate (Suc n) xs) = Some (i, s)" by simp
    from Cons.IH [OF this] show ?thesis by (auto simp: nth_Cons')
  qed
qed

lemma findOne_SomeD:
  "findOne q xs = Some (i, s) \<Longrightarrow> i < length xs \<and> xs ! i = s \<and> q (i, s)"
  unfolding findOne_def using find_enumerate_Some [of q 0 xs i s] by simp

lemma findOne_None_iff:
  "findOne q xs = None \<longleftrightarrow> (\<forall>i<length xs. \<not> q (i, xs ! i))"
  unfolding findOne_def find_None_iff
  by (auto simp: in_set_enumerate_eq)

lemma newest_None_iff: "newest ys = None \<longleftrightarrow> ys = []"
  by (induction ys) (auto split: option.splits)

lemma newest_SomeD:
  "newest ys = Some y \<Longrightarrow> y \<in> set ys \<and> (\<forall>z\<in>set ys. createdAt (snd z) \<le> createdAt (snd y))"
proof (induction ys arbitrary: y)
  case Nil
  then show ?case by simp
next
  case (Cons x xs)
  show ?case
  proof (cases "newest xs")
    case None
    then have "xs = []" by (simp add: newest_None_iff)
    with Cons.prems show ?thesis by simp
  next
    case (Some w)
    from Cons.IH [OF Some] have w: "w \<in> set xs" "\<forall>z\<in>set xs. createdAt (snd z) \<le> createdAt (snd w)"
      by auto
    show ?thesis
    proof (cases "createdAt (snd x) < createdAt (snd w)")
      case True
      with Cons.prems Some have "y = w" by simp
      with w True show ?thesis by auto
    next
      case False
      with Cons.prems Some have "y = x" by simp
      with w False show ?thesis by fastforce
    qed
  qed
qed

lemma findOne_newest_SomeD:
  assumes "findOne_newest q xs = Some (i, s)"
  shows "i < length xs \<and> xs ! i = s \<and> q (i, s) \<and>
         (\<forall>j<length xs. q (j, xs ! j) \<longrightarrow> createdAt (xs ! j) \<le> createdAt s)"
proof -
  from assms have n: "newest (filter q (enumerate 0 xs)) = Some (i, s)"
    by (simp add: findOne_newest_def)
  from newest_SomeD [OF n] have m: "(i, s) \<in> set (filter q (enumerate 0 xs))"
    and mx: "\<forall>z\<in>set (filter q (enumerate 0 xs)). createdAt (snd z) \<le> createdAt s"
    by auto
  from m have a: "i < length xs" "xs ! i = s" "q (i, s)"
    by (auto simp: in_set_enumerate_eq)
  have "createdAt (xs ! j) \<le> createdAt s" if "j < length xs" "q (j, xs ! j)" for j
  proof -
    from that have "(j, xs ! j) \<in> set (filter q (enumerate 0 xs))"
      by (simp add: in_set_enumerate_eq)
    with mx show ?thesis by fastforce
  qed
  with a show ?thesis by blast
qed

lemma findOne_newest_None_iff:
  "findOne_newest q xs = None \<longleftrightarrow> (\<forall>i<length xs. \<not> q (i, xs ! i))"
  unfolding findOne_newest_def newest_None_iff filter_empty_conv
  by (auto simp: in_set_enumerate_eq)

subsection \<open>The occupancy sync\<close>

lemma sync_sessions: "sessions (snd (syncLotStatus lid d st)) = sessions st"
  by (simp add: syncLotStatus_def findByIdAndUpdate_def Let_def split: option.splits)

lemma sync_missing: "lots st lid = None \<Longrightarrow> syncLotStatus lid d st = (None, st)"
  by (simp add: syncLotStatus_def findByIdAndUpdate_def)

lemma sync_lots:
  "lots st lid = Some l \<Longrightarrow>
   lots (snd (syncLotStatus lid d st)) =
     (lots st)(lid \<mapsto> l\<lparr>occupiedSpots := occupiedSpots l + d,
                         lot_status := resolveLotStatus (occupiedSpots l + d) (totalSpots l)\<rparr>)"
  by (auto simp: syncLotStatus_def findByIdAndUpdate_def Let_def)

lemma sync_changed:
  assumes "lots (snd (syncLotStatus lid d st)) k = Some l'" and "lots st k \<noteq> Some l'"
  shows "lot_status l' = resolveLotStatus (occupiedSpots l') (totalSpots l')"
proof (cases "lots st lid")
  case None
  with assms show ?thesis by (simp add: sync_missing)
next
  case (Some l)
  from sync_lots [OF Some, of d] assms show ?thesis
    by (auto split: if_splits)
qed

lemma lots_save [simp]: "lots (save sid s st) = lots st"
  by (simp add: save_def)

lemma lots_create [simp]: "lots (snd (ParkingSession_create sch now inp st)) = lots st"
  by (simp add: ParkingSession_create_def Let_def)

lemma lots_notify [simp]: "lots (Notification_create n st) = lots st"
  by (simp add: Notification_create_def)

lemma sessions_notify [simp]: "sessions (Notification_create n st) = sessions st"
  by (simp add: Notification_create_def)

lemma sessions_save [simp]: "sessions (save sid s st) = (sessions st)[sid := s]"
  by (simp add: save_def)

lemma sessions_create [simp]:
  "sessions (snd (ParkingSession_create sch now inp st)) =
     sessions st @ [snd (fst (ParkingSession_create sch now inp st))]"
  by (simp add: ParkingSession_create_def Let_def)

lemma sync_changed':
  "lots st1 = lots st \<Longrightarrow> lots (snd (syncLotStatus lid d st1)) k = Some l' \<Longrightarrow>
   lots st k \<noteq> Some l' \<Longrightarrow> lot_synced l'"
  unfolding lot_synced_def using sync_changed [of lid d st1 k l'] by simp

lemma handle_changed:
  assumes "lots (snd (handle sch now r st)) k = Some l'" and "lots st k \<noteq> Some l'"
  shows "lot_synced l'"
proof (cases r)
  case (StartSession c p v)
  with assms show ?thesis
    by (auto simp: startSession_def Let_def case_prod_beta split: option.splits
             dest!: sync_changed' [rotated])
next
  case (BookParking c b)
  with assms show ?thesis
    by (auto simp: bookParking_def Let_def case_prod_beta split: option.splits jsnumber.splits if_splits
             dest!: sync_changed' [rotated])
next
  case (GuardEntry u p)
  with assms show ?thesis
    by (auto simp: guardEntry_def Let_def case_prod_beta split: option.splits body_id.splits
             dest!: sync_changed' [rotated])
next
  case (GuardExit u p)
  with assms show ?thesis
    by (auto simp: guardExit_def Let_def case_prod_beta split: option.splits
             dest!: sync_changed' [rotated])
next
  case (CancelBooking c i)
  with assms show ?thesis
    by (auto simp: cancelBooking_def Let_def case_prod_beta split: option.splits
             dest!: sync_changed' [rotated])
next
  case (CompleteSession c)
  with assms show ?thesis
    by (auto simp: completeSession_def Let_def case_prod_beta split: option.splits
             dest!: sync_changed' [rotated])
qed

subsection \<open>Settlement\<close>

lemma durationHours_ceiling:
  "durationHours end_ms start_ms = max 1 \<lceil>real_of_int (end_ms - start_ms) / 3600000\<rceil>"
proof -
  have "\<lceil>real_of_int (end_ms - start_ms) / real_of_int 3600000\<rceil> =
          - ((- (end_ms - start_ms)) div 3600000)"
    by (rule ceiling_divide_eq_div)
  then show ?thesis by (simp add: durationHours_def)
qed

lemma durationHours_pos: "1 \<le> durationHours end_ms start_ms"
  by (simp add: durationHours_def)

lemma completeSession_settles:
  assumes "findOne (\<lambda>(i, s). user s = caller \<and> status s = Active) (sessions st) = Some (sid, s)"
    and "lots st (parkingLot s) = Some l"
  shows "completeSession now caller st =
           (ok 200 None
              (sid, s\<lparr>endTime := Some now,
                      totalAmount := Some (durationHours now (startTime s) * pricePerHour l),
                      status := Completed\<rparr>),
            snd (syncLotStatus (parkingLot s) (- slotsToRelease s)
                  (save sid (s\<lparr>endTime := Some now,
                      totalAmount := Some (durationHours now (startTime s) * pricePerHour l),
                      status := Completed\<rparr>) st)))"
  using assms by (simp add: completeSession_def Let_def slotsToRelease_def)

lemma guardExit_settles:
  assumes "findOne (\<lambda>(i, s). user s = userId \<and> parkingLot s = parkingLotId \<and> status s = Active)
             (sessions st) = Some (sid, s)"
    and "lots st (parkingLot s) = Some l"
  shows "guardExit now userId parkingLotId st =
           (ok 200 (Some ''Exit successful'')
              (sid, s\<lparr>endTime := Some now,
                      totalAmount := Some (durationHours now (startTime s) * pricePerHour l),
                      status := Completed\<rparr>),
            Notification_create
              \<lparr>n_user = userId, n_type = ''checkout'', n_title = ''Check-out Successful'',
               n_place = place_name (Some l),
               n_total = Some (durationHours now (startTime s) * pricePerHour l),
               n_lot = Some parkingLotId, n_session = sid\<rparr>
              (snd (syncLotStatus parkingLotId (- slotsToRelease s)
                  (save sid (s\<lparr>endTime := Some now,
                      totalAmount := Some (durationHours now (startTime s) * pricePerHour l),
                      status := Completed\<rparr>) st))))"
  using assms by (simp add: guardExit_def Let_def slotsToRelease_def)

lemma charge_at_least_rate:
  assumes "0 \<le> rate"
  shows "rate \<le> durationHours end_ms start_ms * rate"
  using mult_right_mono [OF durationHours_pos [of end_ms start_ms] assms] by simp

subsection \<open>Booking\<close>

lemma sync_state:
  assumes "lots st lid = Some l"
  shows "snd (syncLotStatus lid d st) =
           st\<lparr>lots := (lots st)(lid \<mapsto> l\<lparr>occupiedSpots := occupiedSpots l + d,
                    lot_status := resolveLotStatus (occupiedSpots l + d) (totalSpots l)\<rparr>)\<rparr>"
proof (cases "lot_status l = resolveLotStatus (occupiedSpots l + d) (totalSpots l)")
  case True
  then have e: "l\<lparr>occupiedSpots := occupiedSpots l + d,
               lot_status := resolveLotStatus (occupiedSpots l + d) (totalSpots l)\<rparr> =
             l\<lparr>occupiedSpots := occupiedSpots l + d\<rparr>"
    by (cases l) simp
  from assms True have "snd (syncLotStatus lid d st) =
      st\<lparr>lots := (lots st)(lid \<mapsto> l\<lparr>occupiedSpots := occupiedSpots l + d\<rparr>)\<rparr>"
    by (simp add: syncLotStatus_def findByIdAndUpdate_def Let_def)
  then show ?thesis unfolding e .
next
  case False
  with assms show ?thesis
    by (simp add: syncLotStatus_def findByIdAndUpdate_def Let_def)
qed

lemma bookParking_missing:
  assumes "req_parkingLotId b = None \<or> req_startTime b = None \<or> req_endTime b = None"
  shows "bookParking sch now caller b st =
           (fail 400 ''parkingLotId, startTime and endTime are required'', st)"
  using assms by (auto simp: bookParking_def required_msg_def split: option.splits)

lemma bookParking_bad_slots:
  assumes "req_parkingLotId b = Some lid" "req_startTime b = Some ts" "req_endTime b = Some te"
    and "\<nexists>n. requestedSlots b = JWhole n \<and> 1 \<le> n"
  shows "bookParking sch now caller b st =
           (fail 400 ''slots must be a positive whole number'', st)"
  using assms by (auto simp: bookParking_def slots_msg_def split: jsnumber.splits)

lemma bookParking_valid:
  assumes "req_parkingLotId b = Some lid" "req_startTime b = Some ts" "req_endTime b = Some te"
    and "requestedSlots b = JWhole n" "1 \<le> n"
  shows "bookParking sch now caller b st =
     (case lots st lid of
        None \<Rightarrow> (fail 404 ''Parking lot not found'', st)
      | Some l \<Rightarrow>
          if totalSpots l - occupiedSpots l < n
          then (fail 400 ''Not enough available slots for requested booking'', st)
          else (ok 201 None
                  (length (sessions st),
                   \<lparr>user = caller, parkingLot = lid, status = Booked,
                    vehicleType = Some (if lot_type l = ''bike'' then ''bike'' else ''car''),
                    slots = n, startTime = ts, endTime = Some te,
                    totalAmount = default_totalAmount sch, createdAt = now\<rparr>),
                st\<lparr>sessions := sessions st @
                       [\<lparr>user = caller, parkingLot = lid, status = Booked,
                         vehicleType = Some (if lot_type l = ''bike'' then ''bike'' else ''car''),
                         slots = n, startTime = ts, endTime = Some te,
                         totalAmount = default_totalAmount sch, createdAt = now\<rparr>],
                   lots := (lots st)(lid \<mapsto> l\<lparr>occupiedSpots := occupiedSpots l + n,
                              lot_status := resolveLotStatus (occupiedSpots l + n) (totalSpots l)\<rparr>)\<rparr>))"
proof (cases "lots st lid")
  case None
  with assms show ?thesis by (simp add: bookParking_def)
next
  case (Some l)
  show ?thesis
  proof (cases "totalSpots l - occupiedSpots l < n")
    case True
    with assms Some show ?thesis by (simp add: bookParking_def or_zero_def)
  next
    case False
    with assms Some show ?thesis
      by (simp add: bookParking_def or_zero_def ParkingSession_create_def Let_def sync_state)
  qed
qed

subsection \<open>Guard entry\<close>

lemma findOne_doc_None_iff:
  "findOne (\<lambda>(i, s). P s) xs = None \<longleftrightarrow> (\<forall>s\<in>set xs. \<not> P s)"
  by (simp add: findOne_None_iff all_set_conv_all_nth)

lemma findOne_newest_doc_None_iff:
  "findOne_newest (\<lambda>(i, s). P s) xs = None \<longleftrightarrow> (\<forall>s\<in>set xs. \<not> P s)"
  by (simp add: findOne_newest_None_iff all_set_conv_all_nth)

lemma guardEntry_malformed:
  assumes "userId = Malformed \<or> parkingLotId = Malformed"
  shows "guardEntry sch now userId parkingLotId st = (Next CastError, st)"
  using assms by (auto simp: guardEntry_def Let_def split: body_id.splits)

lemma guardEntry_booked:
  assumes "findOne_newest
             (\<lambda>(i, s). user s = userId \<and> parkingLot s = parkingLotId \<and> status s = Booked)
             (sessions st) = Some (sid, s)"
  shows "guardEntry sch now (ObjectId userId) (ObjectId parkingLotId) st =
           (ok 200 (Some ''Entry successful'') (sid, s\<lparr>status := Active, startTime := now\<rparr>),
            Notification_create
              \<lparr>n_user = userId, n_type = ''checkin'', n_title = ''Check-in Successful'',
               n_place = place_name (lots st parkingLotId), n_total = None,
               n_lot = Some parkingLotId, n_session = sid\<rparr>
              (save sid (s\<lparr>status := Active, startTime := now\<rparr>) st))"
  using assms by (simp add: guardEntry_def Let_def)

lemma guardEntry_walk_in:
  assumes "findOne_newest
             (\<lambda>(i, s). user s = userId \<and> parkingLot s = parkingLotId \<and> status s = Booked)
             (sessions st) = None"
  shows "guardEntry sch now (ObjectId userId) (ObjectId parkingLotId) st =
           (ok 200 (Some ''Entry successful'')
              (length (sessions st),
               \<lparr>user = userId, parkingLot = parkingLotId, status = Active,
                vehicleType = default_vehicleType sch, slots = default_slots sch,
                startTime = now, endTime = None, totalAmount = default_totalAmount sch,
                createdAt = now\<rparr>),
            Notification_create
              \<lparr>n_user = userId, n_type = ''checkin'', n_title = ''Check-in Successful'',
               n_place = place_name (lots st parkingLotId), n_total = None,
               n_lot = Some parkingLotId, n_session = length (sessions st)\<rparr>
              (snd (syncLotStatus parkingLotId 1
                 (st\<lparr>sessions := sessions st @
                    [\<lparr>user = userId, parkingLot = parkingLotId, status = Active,
                      vehicleType = default_vehicleType sch, slots = default_slots sch,
                      startTime = now, endTime = None, totalAmount = default_totalAmount sch,
                      createdAt = now\<rparr>]\<rparr>))))"
  using assms by (simp add: guardEntry_def Let_def ParkingSession_create_def)

lemma sync_other: "k \<noteq> lid \<Longrightarrow> lots (snd (syncLotStatus lid d st)) k = lots st k"
  by (cases "lots st lid") (simp_all add: sync_missing sync_lots)

subsection \<open>Starting a session\<close>

lemma startSession_duplicate:
  assumes "\<exists>s\<in>set (sessions st). user s = caller \<and> status s = Active"
  shows "startSession sch now caller parkingLotId vehicle st =
           (fail 400 ''User already has an active session'', st)"
proof -
  from assms have "findOne (\<lambda>(i, s). user s = caller \<and> status s = Active) (sessions st) \<noteq> None"
    unfolding findOne_doc_None_iff by blast
  then show ?thesis by (auto simp: startSession_def)
qed

lemma startSession_new:
  assumes "\<forall>s\<in>set (sessions st). \<not> (user s = caller \<and> status s = Active)"
  shows "startSession sch now caller parkingLotId vehicle st =
           (ok 201 None
              (length (sessions st),
               \<lparr>user = caller, parkingLot = parkingLotId, status = default_status sch,
                vehicleType = (case vehicle of None \<Rightarrow> default_vehicleType sch | Some v \<Rightarrow> Some v),
                slots = default_slots sch, startTime = default_startTime sch now,
                endTime = None, totalAmount = default_totalAmount sch, createdAt = now\<rparr>),
            snd (syncLotStatus parkingLotId 1
                 (st\<lparr>sessions := sessions st @
                    [\<lparr>user = caller, parkingLot = parkingLotId, status = default_status sch,
                      vehicleType =
                        (case vehicle of None \<Rightarrow> default_vehicleType sch | Some v \<Rightarrow> Some v),
                      slots = default_slots sch, startTime = default_startTime sch now,
                      endTime = None, totalAmount = default_totalAmount sch,
                      createdAt = now\<rparr>]\<rparr>)))"
proof -
  from assms have "findOne (\<lambda>(i, s). user s = caller \<and> status s = Active) (sessions st) = None"
    by (simp add: findOne_doc_None_iff)
  then show ?thesis by (simp add: startSession_def Let_def ParkingSession_create_def)
qed

subsection \<open>Sessions a handler leaves alone\<close>

lemma guardEntry_keeps_wellformed:
  assumes "i < length (sessions st)" and "status (sessions st ! i) \<noteq> Booked"
  shows "i < length (sessions (snd (guardEntry sch now (ObjectId userId) (ObjectId lid) st))) \<and>
         sessions (snd (guardEntry sch now (ObjectId userId) (ObjectId lid) st)) ! i =
           sessions st ! i"
proof (cases "findOne_newest
             (\<lambda>(i, s). user s = userId \<and> parkingLot s = lid \<and> status s = Booked) (sessions st)")
  case None
  from guardEntry_walk_in [OF None, of sch now] assms show ?thesis
    by (simp add: sync_sessions nth_append)
next
  case (Some p)
  then obtain sid s where f: "findOne_newest
             (\<lambda>(i, s). user s = userId \<and> parkingLot s = lid \<and> status s = Booked) (sessions st)
             = Some (sid, s)" by (cases p) simp
  from findOne_newest_SomeD [OF f] assms have "sid \<noteq> i" by auto
  with guardEntry_booked [OF f, of sch now] assms show ?thesis by simp
qed

lemma guardEntry_keeps:
  assumes "i < length (sessions st)" and "status (sessions st ! i) \<noteq> Booked"
  shows "i < length (sessions (snd (guardEntry sch now userId lid st))) \<and>
         sessions (snd (guardEntry sch now userId lid st)) ! i = sessions st ! i"
proof (cases "userId = Malformed \<or> lid = Malformed")
  case True
  from guardEntry_malformed [OF True, of sch now st] assms show ?thesis by simp
next
  case False
  then obtain u l where "userId = ObjectId u" "lid = ObjectId l"
    by (cases userId; cases lid) auto
  with guardEntry_keeps_wellformed [OF assms, of sch now u l] show ?thesis by simp
qed

lemma startSession_keeps:
  assumes "i < length (sessions st)"
  shows "i < length (sessions (snd (startSession sch now caller lid v st))) \<and>
         sessions (snd (startSession sch now caller lid v st)) ! i = sessions st ! i"
  using assms
  by (simp add: startSession_def Let_def case_prod_beta sync_sessions nth_append
        split: option.splits)

lemma bookParking_keeps:
  assumes "i < length (sessions st)"
  shows "i < length (sessions (snd (bookParking sch now caller b st))) \<and>
         sessions (snd (bookParking sch now caller b st)) ! i = sessions st ! i"
  using assms
  by (simp add: bookParking_def Let_def case_prod_beta sync_sessions nth_append
        split: option.splits jsnumber.splits)

lemma guardExit_none:
  assumes "\<forall>s\<in>set (sessions st). \<not> (user s = userId \<and> parkingLot s = lid \<and> status s = Active)"
  shows "guardExit now userId lid st = (fail 404 ''No active session found for this user'', st)"
proof -
  from assms have "findOne
      (\<lambda>(i, s). user s = userId \<and> parkingLot s = lid \<and> status s = Active) (sessions st) = None"
    by (simp add: findOne_doc_None_iff)
  then show ?thesis by (simp add: guardExit_def)
qed

lemma completeSession_none:
  assumes "\<forall>s\<in>set (sessions st). \<not> (user s = caller \<and> status s = Active)"
  shows "completeSession now caller st = (fail 404 ''No active session found'', st)"
proof -
  from assms have "findOne (\<lambda>(i, s). user s = caller \<and> status s = Active) (sessions st) = None"
    by (simp add: findOne_doc_None_iff)
  then show ?thesis by (simp add: completeSession_def)
qed

lemma guardExit_keeps:
  assumes "i < length (sessions st)" and "status (sessions st ! i) \<noteq> Active"
  shows "i < length (sessions (snd (guardExit now userId lid st))) \<and>
         sessions (snd (guardExit now userId lid st)) ! i = sessions st ! i"
proof (cases "findOne
      (\<lambda>(i, s). user s = userId \<and> parkingLot s = lid \<and> status s = Active) (sessions st)")
  case None
  with assms show ?thesis by (simp add: guardExit_def)
next
  case (Some p)
  then obtain sid s where f: "findOne
      (\<lambda>(i, s). user s = userId \<and> parkingLot s = lid \<and> status s = Active) (sessions st)
      = Some (sid, s)" by (cases p) simp
  from findOne_SomeD [OF f] assms have n: "sid \<noteq> i" by auto
  show ?thesis
  proof (cases "lots st (parkingLot s)")
    case None
    with f assms show ?thesis by (simp add: guardExit_def)
  next
    case (Some l)
    from guardExit_settles [OF f Some, of now] n assms show ?thesis
      by (simp add: sync_sessions)
  qed
qed

lemma completeSession_keeps:
  assumes "i < length (sessions st)" and "status (sessions st ! i) \<noteq> Active"
  shows "i < length (sessions (snd (completeSession now caller st))) \<and>
         sessions (snd (completeSession now caller st)) ! i = sessions st ! i"
proof (cases "findOne (\<lambda>(i, s). user s = caller \<and> status s = Active) (sessions st)")
  case None
  with assms show ?thesis by (simp add: completeSession_def)
next
  case (Some p)
  then obtain sid s where f: "findOne (\<lambda>(i, s). user s = caller \<and> status s = Active) (sessions st)
      = Some (sid, s)" by (cases p) simp
  from findOne_SomeD [OF f] assms have n: "sid \<noteq> i" by auto
  show ?thesis
  proof (cases "lots st (parkingLot s)")
    case None
    with f assms show ?thesis by (simp add: completeSession_def)
  next
    case (Some l)
    from completeSession_settles [OF f Some, of now] n assms show ?thesis
      by (simp add: sync_sessions)
  qed
qed

lemma cancelBooking_keeps:
  assumes "i < length (sessions st)" and "status (sessions st ! i) \<noteq> Booked"
  shows "i < length (sessions (snd (cancelBooking now caller bookingId st))) \<and>
         sessions (snd (cancelBooking now caller bookingId st)) ! i = sessions st ! i"
proof (cases "findOne (\<lambda>(i, s). i = bookingId \<and> user s = caller \<and> status s = Booked)
                (sessions st)")
  case None
  with assms show ?thesis by (simp add: cancelBooking_def)
next
  case (Some p)
  then obtain sid s where f: "findOne (\<lambda>(i, s). i = bookingId \<and> user s = caller \<and> status s = Booked)
                (sessions st) = Some (sid, s)" by (cases p) simp
  from findOne_SomeD [OF f] assms have n: "sid \<noteq> i" by auto
  with f assms show ?thesis
    by (simp add: cancelBooking_def Let_def sync_sessions split: option.splits)
qed

lemma handle_keeps:
  assumes "i < length (sessions st)"
    and "status (sessions st ! i) \<noteq> Booked" and "status (sessions st ! i) \<noteq> Active"
  shows "i < length (sessions (snd (handle sch now r st))) \<and>
         sessions (snd (handle sch now r st)) ! i = sessions st ! i"
proof (cases r)
  case (StartSession c p v)
  with startSession_keeps [OF assms(1)] show ?thesis by simp
next
  case (BookParking c b)
  with bookParking_keeps [OF assms(1)] show ?thesis by simp
next
  case (GuardEntry u p)
  with guardEntry_keeps [OF assms(1,2)] show ?thesis by simp
next
  case (GuardExit u p)
  with guardExit_keeps [OF assms(1,3)] show ?thesis by simp
next
  case (CancelBooking c k)
  with cancelBooking_keeps [OF assms(1,2)] show ?thesis by simp
next
  case (CompleteSession c)
  with completeSession_keeps [OF assms(1,3)] show ?thesis by simp
qed

lemma run_keeps:
  assumes "i < length (sessions st)"
    and "status (sessions st ! i) \<noteq> Booked" and "status (sessions st ! i) \<noteq> Active"
  shows "i < length (sessions (run sch rs st)) \<and> sessions (run sch rs st) ! i = sessions st ! i"
  using assms
proof (induction rs arbitrary: st)
  case Nil
  then show ?case by simp
next
  case (Cons x rs)
  obtain now r where x: "x = (now, r)" by (cases x)
  from handle_keeps [OF Cons.prems, of sch now r]
  have k: "i < length (sessions (snd (handle sch now r st)))"
    "sessions (snd (handle sch now r st)) ! i = sessions st ! i"
    by simp_all
  from Cons.IH [of "snd (handle sch now r st)"] k Cons.prems x show ?case by simp
qed

subsection \<open>Settling twice\<close>

lemma completeSession_orphan:
  assumes "findOne (\<lambda>(i, s). user s = caller \<and> status s = Active) (sessions st) = Some (sid, s)"
    and "lots st (parkingLot s) = None"
  shows "completeSession now caller st = (Next TypeError, st)"
  using assms by (simp add: completeSession_def)

lemma completeSession_last_active:
  assumes u: "\<forall>i<length (sessions st). \<forall>j<length (sessions st).
               user (sessions st ! i) = caller \<and> status (sessions st ! i) = Active \<and>
               user (sessions st ! j) = caller \<and> status (sessions st ! j) = Active \<longrightarrow> i = j"
    and c: "completeSession now caller st = (Reply r, st1)"
  shows "\<forall>s\<in>set (sessions st1). \<not> (user s = caller \<and> status s = Active)"
proof (cases "findOne (\<lambda>(i, s). user s = caller \<and> status s = Active) (sessions st)")
  case None
  then have n: "\<forall>s\<in>set (sessions st). \<not> (user s = caller \<and> status s = Active)"
    by (simp add: findOne_doc_None_iff)
  from completeSession_none [OF n, of now] c have "st1 = st" by simp
  with n show ?thesis by simp
next
  case (Some p)
  then obtain sid s where f: "findOne (\<lambda>(i, s). user s = caller \<and> status s = Active) (sessions st)
      = Some (sid, s)" by (cases p) simp
  from findOne_SomeD [OF f]
  have d: "sid < length (sessions st)" "sessions st ! sid = s" "user s = caller" "status s = Active"
    by auto
  show ?thesis
  proof (cases "lots st (parkingLot s)")
    case None
    from completeSession_orphan [OF f None, of now] c show ?thesis by simp
  next
    case (Some l)
    from completeSession_settles [OF f Some, of now] c
    have e: "sessions st1 =
               (sessions st)[sid := s\<lparr>endTime := Some now,
                   totalAmount := Some (durationHours now (startTime s) * pricePerHour l),
                   status := Completed\<rparr>]"
      by (auto simp: sync_sessions)
    have "\<not> (user (sessions st1 ! j) = caller \<and> status (sessions st1 ! j) = Active)"
      if j: "j < length (sessions st1)" for j
    proof (cases "j = sid")
      case True
      with e d show ?thesis by simp
    next
      case False
      with e j have k: "j < length (sessions st)" "sessions st1 ! j = sessions st ! j" by simp_all
      show ?thesis
      proof
        assume "user (sessions st1 ! j) = caller \<and> status (sessions st1 ! j) = Active"
        with k d u have "j = sid" by metis
        with False show False by simp
      qed
    qed
    then show ?thesis by (simp add: all_set_conv_all_nth)
  qed
qed

lemma completeSession_ok_completed:
  assumes "completeSession now caller st = (ok 200 None (sid, s), st1)"
  shows "sid < length (sessions st1) \<and> sessions st1 ! sid = s \<and> status s = Completed"
proof (cases "findOne (\<lambda>(i, s). user s = caller \<and> status s = Active) (sessions st)")
  case None
  with assms show ?thesis by (simp add: completeSession_def fail_def ok_def)
next
  case (Some p)
  then obtain k s0 where f: "findOne (\<lambda>(i, s). user s = caller \<and> status s = Active) (sessions st)
      = Some (k, s0)" by (cases p) simp
  from findOne_SomeD [OF f] have d: "k < length (sessions st)" by simp
  show ?thesis
  proof (cases "lots st (parkingLot s0)")
    case None
    from completeSession_orphan [OF f None, of now] assms show ?thesis by (simp add: ok_def)
  next
    case (Some l)
    from completeSession_settles [OF f Some, of now] assms d show ?thesis
      by (auto simp: ok_def sync_sessions)
  qed
qed

text \<open>
  What does hold of settling without an active session: \<open>guardExit\<close> and
  \<open>completeSession\<close> answer 404 and return the database as it was when the lookup finds
  no active session; when the caller has at most one active session and a first
  \<open>completeSession\<close> answers, a second one answers 404 and changes nothing; and a second
  call never touches the session the first one settled.
\<close>

lemma completeSession_twice_single_active:
  "((\<forall>s\<in>set (sessions st). \<not> (user s = userId \<and> parkingLot s = lid \<and> status s = Active)) \<longrightarrow>
      guardExit now userId lid st = (fail 404 ''No active session found for this user'', st)) \<and>
   ((\<forall>s\<in>set (sessions st). \<not> (user s = caller \<and> status s = Active)) \<longrightarrow>
      completeSession now caller st = (fail 404 ''No active session found'', st)) \<and>
   ((\<forall>i<length (sessions st). \<forall>j<length (sessions st).
        user (sessions st ! i) = caller \<and> status (sessions st ! i) = Active \<and>
        user (sessions st ! j) = caller \<and> status (sessions st ! j) = Active \<longrightarrow> i = j) \<longrightarrow>
      (\<forall>r st1. completeSession now caller st = (Reply r, st1) \<longrightarrow>
         completeSession later caller st1 = (fail 404 ''No active session found'', st1))) \<and>
   (\<forall>sid s st1. completeSession now caller st = (ok 200 None (sid, s), st1) \<longrightarrow>
      sessions st1 ! sid = s \<and>
      sessions (snd (completeSession later caller st1)) ! sid = s)"
proof (intro conjI impI allI)
  assume "\<forall>s\<in>set (sessions st). \<not> (user s = userId \<and> parkingLot s = lid \<and> status s = Active)"
  then show "guardExit now userId lid st =
      (fail 404 ''No active session found for this user'', st)"
    by (rule guardExit_none)
next
  assume "\<forall>s\<in>set (sessions st). \<not> (user s = caller \<and> status s = Active)"
  then show "completeSession now caller st = (fail 404 ''No active session found'', st)"
    by (rule completeSession_none)
next
  fix r st1
  assume u: "\<forall>i<length (sessions st). \<forall>j<length (sessions st).
        user (sessions st ! i) = caller \<and> status (sessions st ! i) = Active \<and>
        user (sessions st ! j) = caller \<and> status (sessions st ! j) = Active \<longrightarrow> i = j"
    and c: "completeSession now caller st = (Reply r, st1)"
  from completeSession_last_active [OF u c]
  show "completeSession later caller st1 = (fail 404 ''No active session found'', st1)"
    by (rule completeSession_none)
next
  fix sid s st1
  assume c: "completeSession now caller st = (ok 200 None (sid, s), st1)"
  from completeSession_ok_completed [OF c]
  have d: "sid < length (sessions st1)" "sessions st1 ! sid = s" "status s = Completed"
    by simp_all
  then have "status (sessions st1 ! sid) \<noteq> Active" by simp
  from completeSession_keeps [OF d(1) this, of later caller] d
  show "sessions st1 ! sid = s" "sessions (snd (completeSession later caller st1)) ! sid = s"
    by simp_all
qed

subsection \<open>The example states, evaluated\<close>

lemma example_two_entries_eq:
  "example_two_entries =
     \<lparr>lots = [1 \<mapsto> example_lot\<lparr>occupiedSpots := 2, lot_status := ''full''\<rparr>],
      sessions =
        [\<lparr>user = 7, parkingLot = 1, status = Active, vehicleType = None, slots = 1,
          startTime = 0, endTime = None, totalAmount = None, createdAt = 0\<rparr>,
         \<lparr>user = 7, parkingLot = 1, status = Active, vehicleType = None, slots = 1,
          startTime = 10, endTime = None, totalAmount = None, createdAt = 10\<rparr>],
      notifications =
        [\<lparr>n_user = 7, n_type = ''checkin'', n_title = ''Check-in Successful'',
          n_place = ''Central'', n_total = None, n_lot = Some 1, n_session = 0\<rparr>,
         \<lparr>n_user = 7, n_type = ''checkin'', n_title = ''Check-in Successful'',
          n_place = ''Central'', n_total = None, n_lot = Some 1, n_session = 1\<rparr>]\<rparr>"
  by (simp add: example_two_entries_def example_db_def example_lot_def spec_schema_def
        guardEntry_def findOne_newest_def ParkingSession_create_def Notification_create_def
        syncLotStatus_def findByIdAndUpdate_def resolveLotStatus_def place_name_def ok_def Let_def)

lemma example_parked_settled:
  "completeSession 2700000 7 example_parked =
     (ok 200 None
        (0, example_active\<lparr>endTime := Some 2700000, totalAmount := Some 100,
                           status := Completed\<rparr>),
      example_settled)"
  by (simp add: example_parked_def example_settled_def example_active_def example_lot_def
        completeSession_def findOne_def save_def syncLotStatus_def findByIdAndUpdate_def
        resolveLotStatus_def slotsToRelease_def durationHours_def Let_def)

section \<open>Booking\<close>

text \<open>
  Claim C1. For a request whose \<open>parkingLotId\<close>, \<open>startTime\<close> and \<open>endTime\<close> are present
  and whose requested slots are a whole number \<open>n \<ge> 1\<close> (given, or the default 1),
  \<open>bookParking\<close> answers 201 if and only if the lot exists and
  \<open>totalSpots - occupiedSpots \<ge> n\<close>. On success it appends one session with status
  \<open>Booked\<close>, \<open>n\<close> slots and the requested window, and adds \<open>n\<close> to the
  \<open>occupiedSpots\<close> of that lot and of no other. It answers 404 when the lot does not
  exist and 400 when the free capacity is below \<open>n\<close>, and then returns the database as
  it was.
\<close>

theorem bookParking_capacity:
  assumes "req_parkingLotId b = Some lid" "req_startTime b = Some ts" "req_endTime b = Some te"
    and "requestedSlots b = JWhole n" "1 \<le> n"
  shows
    "(http_status (fst (bookParking sch now caller b st)) = Some 201 \<longleftrightarrow>
        (\<exists>l. lots st lid = Some l \<and> n \<le> totalSpots l - occupiedSpots l)) \<and>
     (\<forall>l. lots st lid = Some l \<and> n \<le> totalSpots l - occupiedSpots l \<longrightarrow>
        (\<exists>s st'. bookParking sch now caller b st = (ok 201 None (length (sessions st), s), st') \<and>
           sessions st' = sessions st @ [s] \<and>
           status s = Booked \<and> slots s = n \<and> user s = caller \<and> parkingLot s = lid \<and>
           startTime s = ts \<and> endTime s = Some te \<and>
           (\<exists>l'. lots st' lid = Some l' \<and> occupiedSpots l' = occupiedSpots l + n \<and>
                 totalSpots l' = totalSpots l) \<and>
           (\<forall>k. k \<noteq> lid \<longrightarrow> lots st' k = lots st k))) \<and>
     (lots st lid = None \<longrightarrow>
        bookParking sch now caller b st = (fail 404 ''Parking lot not found'', st)) \<and>
     (\<forall>l. lots st lid = Some l \<and> totalSpots l - occupiedSpots l < n \<longrightarrow>
        bookParking sch now caller b st =
          (fail 400 ''Not enough available slots for requested booking'', st))"
proof -
  note v = bookParking_valid [OF assms, of sch now caller st]
  show ?thesis
  proof (cases "lots st lid")
    case None
    with v show ?thesis by (simp add: fail_def)
  next
    case (Some l)
    show ?thesis
    proof (cases "totalSpots l - occupiedSpots l < n")
      case True
      with v Some show ?thesis by (simp add: fail_def)
    next
      case False
      with v Some show ?thesis by (simp add: ok_def)
    qed
  qed
qed

theorem bookParking_capacity_witness:
  "req_parkingLotId example_body = Some 1 \<and> req_startTime example_body = Some 1000 \<and>
   req_endTime example_body = Some 2000 \<and> requestedSlots example_body = JWhole 2 \<and>
   (1::int) \<le> 2 \<and> lots example_db 1 = Some example_lot \<and>
   2 \<le> totalSpots example_lot - occupiedSpots example_lot \<and>
   http_status (fst (bookParking spec_schema 5 7 example_body example_db)) = Some 201 \<and>
   map status (sessions (snd (bookParking spec_schema 5 7 example_body example_db))) = [Booked] \<and>
   map slots (sessions (snd (bookParking spec_schema 5 7 example_body example_db))) = [2] \<and>
   map_option occupiedSpots (lots (snd (bookParking spec_schema 5 7 example_body example_db)) 1)
     = Some 2 \<and>
   bookParking spec_schema 5 7 (example_body\<lparr>req_parkingLotId := Some 9\<rparr>) example_db =
     (fail 404 ''Parking lot not found'', example_db) \<and>
   bookParking spec_schema 5 7 (example_body\<lparr>req_slots := Some (JWhole 3)\<rparr>) example_db =
     (fail 400 ''Not enough available slots for requested booking'', example_db)"
  using bookParking_capacity [of example_body 1 1000 2000 2 spec_schema 5 7 example_db]
    bookParking_capacity [of "example_body\<lparr>req_parkingLotId := Some 9\<rparr>" 9 1000 2000 2
      spec_schema 5 7 example_db]
    bookParking_capacity [of "example_body\<lparr>req_slots := Some (JWhole 3)\<rparr>" 1 1000 2000 3
      spec_schema 5 7 example_db]
  by (auto simp: example_body_def example_db_def example_lot_def requestedSlots_def ok_def)

text \<open>
  Claim C7, as amended. \<open>bookParking\<close> rejects invalid input before it changes
  anything, and its checks run in the order of the source. If \<open>parkingLotId\<close>,
  \<open>startTime\<close> or \<open>endTime\<close> is missing, the answer is 400 with the message that the
  three fields are required, and the database is unchanged. If the requested slots are not
  a whole number \<open>\<ge> 1\<close> (for example 0), the answer is 400 and the database is unchanged;
  the message is "slots must be a positive whole number" when the three fields are
  present.
\<close>

theorem bookParking_validation:
  "((req_parkingLotId b = None \<or> req_startTime b = None \<or> req_endTime b = None) \<longrightarrow>
      bookParking sch now caller b st =
        (fail 400 ''parkingLotId, startTime and endTime are required'', st)) \<and>
   ((\<nexists>n. requestedSlots b = JWhole n \<and> 1 \<le> n) \<longrightarrow>
      http_status (fst (bookParking sch now caller b st)) = Some 400 \<and>
      snd (bookParking sch now caller b st) = st) \<and>
   ((\<nexists>n. requestedSlots b = JWhole n \<and> 1 \<le> n) \<and>
    req_parkingLotId b \<noteq> None \<and> req_startTime b \<noteq> None \<and> req_endTime b \<noteq> None \<longrightarrow>
      bookParking sch now caller b st =
        (fail 400 ''slots must be a positive whole number'', st))"
proof -
  have a: "bookParking sch now caller b st =
        (fail 400 ''parkingLotId, startTime and endTime are required'', st)"
    if "req_parkingLotId b = None \<or> req_startTime b = None \<or> req_endTime b = None"
    using bookParking_missing [OF that] .
  have c: "bookParking sch now caller b st =
        (fail 400 ''slots must be a positive whole number'', st)"
    if "\<nexists>n. requestedSlots b = JWhole n \<and> 1 \<le> n"
      and "req_parkingLotId b \<noteq> None \<and> req_startTime b \<noteq> None \<and> req_endTime b \<noteq> None"
    using that bookParking_bad_slots [of b _ _ _ sch now caller st] by auto
  have b: "http_status (fst (bookParking sch now caller b st)) = Some 400 \<and>
      snd (bookParking sch now caller b st) = st"
    if n: "\<nexists>n. requestedSlots b = JWhole n \<and> 1 \<le> n"
  proof (cases "req_parkingLotId b = None \<or> req_startTime b = None \<or> req_endTime b = None")
    case True
    from a [OF True] show ?thesis by (simp add: fail_def)
  next
    case False
    then have "req_parkingLotId b \<noteq> None \<and> req_startTime b \<noteq> None \<and> req_endTime b \<noteq> None"
      by simp
    from c [OF n this] show ?thesis by (simp add: fail_def)
  qed
  from a b c show ?thesis by blast
qed

theorem bookParking_validation_witness:
  "(\<nexists>n. requestedSlots (example_body\<lparr>req_slots := Some (JWhole 0)\<rparr>) = JWhole n \<and> 1 \<le> n) \<and>
   req_parkingLotId (example_body\<lparr>req_slots := Some (JWhole 0)\<rparr>) \<noteq> None \<and>
   req_startTime (example_body\<lparr>req_slots := Some (JWhole 0)\<rparr>) \<noteq> None \<and>
   req_endTime (example_body\<lparr>req_slots := Some (JWhole 0)\<rparr>) \<noteq> None \<and>
   bookParking spec_schema 5 7 (example_body\<lparr>req_slots := Some (JWhole 0)\<rparr>) example_db =
     (fail 400 ''slots must be a positive whole number'', example_db) \<and>
   req_startTime (example_body\<lparr>req_startTime := None\<rparr>) = None \<and>
   bookParking spec_schema 5 7 (example_body\<lparr>req_startTime := None\<rparr>) example_db =
     (fail 400 ''parkingLotId, startTime and endTime are required'', example_db)"
  using bookParking_validation [of "example_body\<lparr>req_slots := Some (JWhole 0)\<rparr>"
          spec_schema 5 7 example_db]
    bookParking_validation [of "example_body\<lparr>req_startTime := None\<rparr>" spec_schema 5 7 example_db]
  by (simp add: example_body_def requestedSlots_def)

text \<open>
  Claim C7 as stated fails for a request that has \<open>slots = 0\<close> and no \<open>parkingLotId\<close>:
  the check for missing fields comes first, so the answer is 400 with the message about
  the required fields, not the one about slots.
\<close>

theorem bookParking_slots_message_counterexample:
  "requestedSlots (example_body\<lparr>req_parkingLotId := None, req_slots := Some (JWhole 0)\<rparr>) =
     JWhole 0 \<and>
   bookParking spec_schema 5 7
     (example_body\<lparr>req_parkingLotId := None, req_slots := Some (JWhole 0)\<rparr>) example_db =
     (fail 400 ''parkingLotId, startTime and endTime are required'', example_db) \<and>
   bookParking spec_schema 5 7
     (example_body\<lparr>req_parkingLotId := None, req_slots := Some (JWhole 0)\<rparr>) example_db \<noteq>
     (fail 400 ''slots must be a positive whole number'', example_db)"
  by (simp add: example_body_def requestedSlots_def bookParking_def required_msg_def fail_def)

text \<open>
  Claim C10. \<open>bookParking\<close> does not read the \<open>vehicleType\<close> of the request: changing
  it changes neither the answer nor the database. The session a successful booking creates
  has \<open>vehicleType\<close> "bike" if and only if the lot's type is "bike", and "car" in every
  other case.
\<close>

theorem bookParking_vehicleType:
  "bookParking sch now caller (b\<lparr>req_vehicleType := v\<rparr>) st = bookParking sch now caller b st \<and>
   (\<forall>r st'. bookParking sch now caller b st = (Reply r, st') \<and> code r = 201 \<longrightarrow>
      (\<exists>lid l s. req_parkingLotId b = Some lid \<and> lots st lid = Some l \<and>
         data r = Some (length (sessions st), s) \<and> sessions st' = sessions st @ [s] \<and>
         (vehicleType s = Some ''bike'' \<longleftrightarrow> lot_type l = ''bike'') \<and>
         (vehicleType s = Some ''car'' \<longleftrightarrow> lot_type l \<noteq> ''bike'')))"
proof -
  have a: "bookParking sch now caller (b\<lparr>req_vehicleType := v\<rparr>) st = bookParking sch now caller b st"
    by (simp add: bookParking_def requestedSlots_def split: option.splits)
  have b: "\<exists>lid l s. req_parkingLotId b = Some lid \<and> lots st lid = Some l \<and>
         data r = Some (length (sessions st), s) \<and> sessions st' = sessions st @ [s] \<and>
         (vehicleType s = Some ''bike'' \<longleftrightarrow> lot_type l = ''bike'') \<and>
         (vehicleType s = Some ''car'' \<longleftrightarrow> lot_type l \<noteq> ''bike'')"
    if "bookParking sch now caller b st = (Reply r, st')" "code r = 201" for r st'
    using that
    by (auto simp: bookParking_def Let_def case_prod_beta ParkingSession_create_def fail_def ok_def
          sync_sessions
          split: option.splits jsnumber.splits if_splits)
  from a b show ?thesis by blast
qed

theorem bookParking_vehicleType_witness:
  "bookParking spec_schema 5 7 example_body example_db =
     (Reply \<lparr>code = 201, success = True, message = None,
        data = Some (0, \<lparr>user = 7, parkingLot = 1, status = Booked, vehicleType = Some ''car'',
                 slots = 2, startTime = 1000, endTime = Some 2000, totalAmount = None,
                 createdAt = 5\<rparr>)\<rparr>,
      snd (bookParking spec_schema 5 7 example_body example_db)) \<and>
   req_vehicleType example_body = Some ''bike'' \<and> lot_type example_lot \<noteq> ''bike''"
  using bookParking_vehicleType [of spec_schema 5 7 None example_body example_db]
  by (simp add: example_body_def example_db_def example_lot_def bookParking_def requestedSlots_def
        or_zero_def ParkingSession_create_def spec_schema_def ok_def Let_def)

section \<open>Billing\<close>

text \<open>
  Claim C2. Whenever \<open>completeSession\<close> or \<open>guardExit\<close> settles a session (the lookup
  found it and its lot is there), the amount stored in the session and returned is
  \<open>max 1 \<lceil>elapsed / 3600000\<rceil> * pricePerHour\<close>, with \<open>elapsed\<close> the milliseconds from
  the session's \<open>startTime\<close> to the settlement time. For a rate that is not negative
  (the data model's rates) the amount is at least \<open>pricePerHour\<close>: one hour is always
  billed. The example bills 45 minutes at 100 per hour as 100.
\<close>

theorem settlement_charge:
  assumes "lots st (parkingLot s) = Some l"
  shows
    "(findOne (\<lambda>(i, s). user s = caller \<and> status s = Active) (sessions st) = Some (sid, s) \<longrightarrow>
        (\<exists>amount st'.
            completeSession now caller st =
              (ok 200 None
                 (sid, s\<lparr>endTime := Some now, totalAmount := Some amount, status := Completed\<rparr>),
               st') \<and>
            sessions st' ! sid =
              s\<lparr>endTime := Some now, totalAmount := Some amount, status := Completed\<rparr> \<and>
            amount = max 1 \<lceil>real_of_int (now - startTime s) / 3600000\<rceil> * pricePerHour l \<and>
            (0 \<le> pricePerHour l \<longrightarrow> pricePerHour l \<le> amount))) \<and>
     (findOne (\<lambda>(i, s). user s = userId \<and> parkingLot s = parkingLotId \<and> status s = Active)
        (sessions st) = Some (sid, s) \<longrightarrow>
        (\<exists>amount st'.
            guardExit now userId parkingLotId st =
              (ok 200 (Some ''Exit successful'')
                 (sid, s\<lparr>endTime := Some now, totalAmount := Some amount, status := Completed\<rparr>),
               st') \<and>
            sessions st' ! sid =
              s\<lparr>endTime := Some now, totalAmount := Some amount, status := Completed\<rparr> \<and>
            amount = max 1 \<lceil>real_of_int (now - startTime s) / 3600000\<rceil> * pricePerHour l \<and>
            (0 \<le> pricePerHour l \<longrightarrow> pricePerHour l \<le> amount)))"
proof (intro conjI impI)
  assume f: "findOne (\<lambda>(i, s). user s = caller \<and> status s = Active) (sessions st) = Some (sid, s)"
  from findOne_SomeD [OF f] have i: "sid < length (sessions st)" by simp
  show "\<exists>amount st'.
            completeSession now caller st =
              (ok 200 None
                 (sid, s\<lparr>endTime := Some now, totalAmount := Some amount, status := Completed\<rparr>),
               st') \<and>
            sessions st' ! sid =
              s\<lparr>endTime := Some now, totalAmount := Some amount, status := Completed\<rparr> \<and>
            amount = max 1 \<lceil>real_of_int (now - startTime s) / 3600000\<rceil> * pricePerHour l \<and>
            (0 \<le> pricePerHour l \<longrightarrow> pricePerHour l \<le> amount)"
    using completeSession_settles [OF f assms, of now] i
      charge_at_least_rate [of "pricePerHour l" now "startTime s"]
    by (simp add: sync_sessions durationHours_ceiling)
next
  assume f: "findOne (\<lambda>(i, s). user s = userId \<and> parkingLot s = parkingLotId \<and> status s = Active)
        (sessions st) = Some (sid, s)"
  from findOne_SomeD [OF f] have i: "sid < length (sessions st)" by simp
  show "\<exists>amount st'.
            guardExit now userId parkingLotId st =
              (ok 200 (Some ''Exit successful'')
                 (sid, s\<lparr>endTime := Some now, totalAmount := Some amount, status := Completed\<rparr>),
               st') \<and>
            sessions st' ! sid =
              s\<lparr>endTime := Some now, totalAmount := Some amount, status := Completed\<rparr> \<and>
            amount = max 1 \<lceil>real_of_int (now - startTime s) / 3600000\<rceil> * pricePerHour l \<and>
            (0 \<le> pricePerHour l \<longrightarrow> pricePerHour l \<le> amount)"
    using guardExit_settles [OF f assms, of now] i
      charge_at_least_rate [of "pricePerHour l" now "startTime s"]
    by (simp add: sync_sessions durationHours_ceiling)
qed

theorem settlement_charge_witness:
  "lots example_parked (parkingLot example_active) = Some (example_lot\<lparr>occupiedSpots := 1\<rparr>) \<and>
   findOne (\<lambda>(i, s). user s = 7 \<and> status s = Active) (sessions example_parked) =
     Some (0, example_active) \<and>
   findOne (\<lambda>(i, s). user s = 7 \<and> parkingLot s = 1 \<and> status s = Active)
     (sessions example_parked) = Some (0, example_active) \<and>
   0 \<le> pricePerHour (example_lot\<lparr>occupiedSpots := 1\<rparr>) \<and>
   totalAmount (sessions (snd (completeSession 2700000 7 example_parked)) ! 0) = Some 100 \<and>
   totalAmount (sessions (snd (guardExit 2700000 7 1 example_parked)) ! 0) = Some 100"
  using settlement_charge [of example_parked example_active "example_lot\<lparr>occupiedSpots := 1\<rparr>"
          7 0 2700000 7 1]
  by (auto simp add: example_parked_def example_active_def example_lot_def findOne_def)

section \<open>Lot status\<close>

text \<open>
  Claim C8. \<open>resolveLotStatus occupied capacity\<close> is \<open>full\<close> exactly when
  \<open>occupied \<ge> capacity\<close> and \<open>available\<close> exactly otherwise, for all integers. After
  \<open>syncLotStatus\<close> on an existing lot the stored count has moved by the delta and the
  stored status equals \<open>resolveLotStatus\<close> of the stored counts; and whatever request the
  router handles, every lot document it leaves changed has its status in sync.
\<close>

theorem lot_status_resync:
  "(resolveLotStatus occ cap = ''full'' \<longleftrightarrow> cap \<le> occ) \<and>
   (resolveLotStatus occ cap = ''available'' \<longleftrightarrow> occ < cap) \<and>
   (\<forall>l. lots st lid = Some l \<longrightarrow>
      (\<exists>l'. lots (snd (syncLotStatus lid d st)) lid = Some l' \<and>
            occupiedSpots l' = occupiedSpots l + d \<and> totalSpots l' = totalSpots l \<and>
            lot_status l' = resolveLotStatus (occupiedSpots l') (totalSpots l'))) \<and>
   (\<forall>k l'. lots (snd (handle sch now r st)) k = Some l' \<and> lots st k \<noteq> Some l' \<longrightarrow>
      lot_status l' = resolveLotStatus (occupiedSpots l') (totalSpots l'))"
proof -
  have a: "resolveLotStatus occ cap = ''full'' \<longleftrightarrow> cap \<le> occ"
    by (simp add: resolveLotStatus_def)
  have b: "resolveLotStatus occ cap = ''available'' \<longleftrightarrow> occ < cap"
    by (simp add: resolveLotStatus_def)
  have c: "\<exists>l'. lots (snd (syncLotStatus lid d st)) lid = Some l' \<and>
            occupiedSpots l' = occupiedSpots l + d \<and> totalSpots l' = totalSpots l \<and>
            lot_status l' = resolveLotStatus (occupiedSpots l') (totalSpots l')"
    if "lots st lid = Some l" for l
    using sync_lots [OF that, of d] by simp
  have d: "lot_status l' = resolveLotStatus (occupiedSpots l') (totalSpots l')"
    if "lots (snd (handle sch now r st)) k = Some l'" "lots st k \<noteq> Some l'" for k l'
    using handle_changed [OF that] by (simp add: lot_synced_def)
  from a b c d show ?thesis by blast
qed

theorem lot_status_resync_witness:
  "lots (snd (handle spec_schema 0 (BookParking 7 example_body) example_db)) 1 =
     Some (example_lot\<lparr>occupiedSpots := 2, lot_status := ''full''\<rparr>) \<and>
   lots example_db 1 \<noteq> Some (example_lot\<lparr>occupiedSpots := 2, lot_status := ''full''\<rparr>) \<and>
   lot_status (example_lot\<lparr>occupiedSpots := 2, lot_status := ''full''\<rparr>) =
     resolveLotStatus 2 2 \<and>
   lots example_db 1 = Some example_lot \<and>
   lots (snd (syncLotStatus 1 2 example_db)) 1 =
     Some (example_lot\<lparr>occupiedSpots := 2, lot_status := ''full''\<rparr>)"
  using lot_status_resync [of 2 2 example_db 1 2 spec_schema 0 "BookParking 7 example_body"]
  by (simp add: example_db_def example_lot_def example_body_def bookParking_def
        requestedSlots_def or_zero_def ParkingSession_create_def syncLotStatus_def
        findByIdAndUpdate_def resolveLotStatus_def Let_def)

section \<open>Guard entry\<close>

text \<open>
  Claim C3, as amended. For a \<open>userId\<close> and a \<open>parkingLotId\<close> that are well-formed ids,
  \<open>guardEntry\<close> always answers 200; when either of them cannot be cast to an id, the
  lookup is rejected, the error is forwarded with \<^verbatim>\<open>next(error)\<close> and the database is
  as it was. On well-formed ids: if the user has a booked session at the lot, it activates
  one whose creation time no other booked session of this user at this lot exceeds (the
  newest), sets its \<open>startTime\<close> to now, changes no other session and leaves every lot as
  it was. If there is none, it appends a new session that is \<open>Active\<close> from now on, raises
  the \<open>occupiedSpots\<close> of the lot by exactly 1, and touches no other lot.
\<close>

theorem guardEntry_wellformed_succeeds:
  "(\<exists>r. fst (guardEntry sch now (ObjectId userId) (ObjectId lid) st) = Reply r \<and>
        code r = 200 \<and> success r) \<and>
   (guardEntry sch now Malformed anyLot st = (Next CastError, st) \<and>
    guardEntry sch now anyUser Malformed st = (Next CastError, st)) \<and>
   ((\<exists>s\<in>set (sessions st). user s = userId \<and> parkingLot s = lid \<and> status s = Booked) \<longrightarrow>
      (\<exists>sid<length (sessions st).
          user (sessions st ! sid) = userId \<and> parkingLot (sessions st ! sid) = lid \<and>
          status (sessions st ! sid) = Booked \<and>
          (\<forall>j<length (sessions st).
              user (sessions st ! j) = userId \<and> parkingLot (sessions st ! j) = lid \<and>
              status (sessions st ! j) = Booked \<longrightarrow>
              createdAt (sessions st ! j) \<le> createdAt (sessions st ! sid)) \<and>
          sessions (snd (guardEntry sch now (ObjectId userId) (ObjectId lid) st)) =
            (sessions st)[sid := (sessions st ! sid)\<lparr>status := Active, startTime := now\<rparr>] \<and>
          lots (snd (guardEntry sch now (ObjectId userId) (ObjectId lid) st)) = lots st)) \<and>
   ((\<forall>s\<in>set (sessions st). \<not> (user s = userId \<and> parkingLot s = lid \<and> status s = Booked)) \<longrightarrow>
      (\<exists>s. sessions (snd (guardEntry sch now (ObjectId userId) (ObjectId lid) st)) = sessions st @ [s] \<and>
           status s = Active \<and> user s = userId \<and> parkingLot s = lid \<and> startTime s = now) \<and>
      (\<forall>l. lots st lid = Some l \<longrightarrow>
           (\<exists>l'. lots (snd (guardEntry sch now (ObjectId userId) (ObjectId lid) st)) lid = Some l' \<and>
                 occupiedSpots l' = occupiedSpots l + 1 \<and> totalSpots l' = totalSpots l)) \<and>
      (\<forall>k. k \<noteq> lid \<longrightarrow> lots (snd (guardEntry sch now (ObjectId userId) (ObjectId lid) st)) k = lots st k))"
proof (intro conjI impI)
  show "guardEntry sch now Malformed anyLot st = (Next CastError, st)"
    by (rule guardEntry_malformed) simp
  show "guardEntry sch now anyUser Malformed st = (Next CastError, st)"
    by (rule guardEntry_malformed) simp
  show "\<exists>r. fst (guardEntry sch now (ObjectId userId) (ObjectId lid) st) = Reply r \<and>
        code r = 200 \<and> success r"
  proof (cases "findOne_newest
             (\<lambda>(i, s). user s = userId \<and> parkingLot s = lid \<and> status s = Booked) (sessions st)")
    case None
    from guardEntry_walk_in [OF None] show ?thesis by (simp add: ok_def)
  next
    case (Some p)
    then obtain sid s where "findOne_newest
             (\<lambda>(i, s). user s = userId \<and> parkingLot s = lid \<and> status s = Booked) (sessions st)
             = Some (sid, s)" by (cases p) simp
    from guardEntry_booked [OF this] show ?thesis by (simp add: ok_def)
  qed
next
  assume "\<exists>s\<in>set (sessions st). user s = userId \<and> parkingLot s = lid \<and> status s = Booked"
  then have "findOne_newest
             (\<lambda>(i, s). user s = userId \<and> parkingLot s = lid \<and> status s = Booked) (sessions st)
             \<noteq> None"
    unfolding findOne_newest_doc_None_iff by blast
  then obtain sid s where f: "findOne_newest
             (\<lambda>(i, s). user s = userId \<and> parkingLot s = lid \<and> status s = Booked) (sessions st)
             = Some (sid, s)" by auto
  from findOne_newest_SomeD [OF f]
  have d: "sid < length (sessions st)" "sessions st ! sid = s"
    "user s = userId \<and> parkingLot s = lid \<and> status s = Booked"
    "\<forall>j<length (sessions st).
        user (sessions st ! j) = userId \<and> parkingLot (sessions st ! j) = lid \<and>
        status (sessions st ! j) = Booked \<longrightarrow> createdAt (sessions st ! j) \<le> createdAt s"
    by auto
  from guardEntry_booked [OF f, of sch now]
  have "sessions (snd (guardEntry sch now (ObjectId userId) (ObjectId lid) st)) =
          (sessions st)[sid := s\<lparr>status := Active, startTime := now\<rparr>]"
    and "lots (snd (guardEntry sch now (ObjectId userId) (ObjectId lid) st)) = lots st"
    by simp_all
  with d show "\<exists>sid<length (sessions st).
          user (sessions st ! sid) = userId \<and> parkingLot (sessions st ! sid) = lid \<and>
          status (sessions st ! sid) = Booked \<and>
          (\<forall>j<length (sessions st).
              user (sessions st ! j) = userId \<and> parkingLot (sessions st ! j) = lid \<and>
              status (sessions st ! j) = Booked \<longrightarrow>
              createdAt (sessions st ! j) \<le> createdAt (sessions st ! sid)) \<and>
          sessions (snd (guardEntry sch now (ObjectId userId) (ObjectId lid) st)) =
            (sessions st)[sid := (sessions st ! sid)\<lparr>status := Active, startTime := now\<rparr>] \<and>
          lots (snd (guardEntry sch now (ObjectId userId) (ObjectId lid) st)) = lots st"
    by blast
next
  assume "\<forall>s\<in>set (sessions st). \<not> (user s = userId \<and> parkingLot s = lid \<and> status s = Booked)"
  then have n: "findOne_newest
             (\<lambda>(i, s). user s = userId \<and> parkingLot s = lid \<and> status s = Booked) (sessions st)
             = None"
    by (simp add: findOne_newest_doc_None_iff)
  note w = guardEntry_walk_in [OF n, of sch now]
  show "\<exists>s. sessions (snd (guardEntry sch now (ObjectId userId) (ObjectId lid) st)) = sessions st @ [s] \<and>
           status s = Active \<and> user s = userId \<and> parkingLot s = lid \<and> startTime s = now"
    by (simp add: w sync_sessions)
  show "\<forall>l. lots st lid = Some l \<longrightarrow>
           (\<exists>l'. lots (snd (guardEntry sch now (ObjectId userId) (ObjectId lid) st)) lid = Some l' \<and>
                 occupiedSpots l' = occupiedSpots l + 1 \<and> totalSpots l' = totalSpots l)"
    by (simp add: w sync_lots)
  show "\<forall>k. k \<noteq> lid \<longrightarrow> lots (snd (guardEntry sch now (ObjectId userId) (ObjectId lid) st)) k = lots st k"
    by (simp add: w sync_other)
qed

theorem guardEntry_wellformed_succeeds_witness:
  "(\<exists>s\<in>set (sessions example_reserved). user s = 7 \<and> parkingLot s = 1 \<and> status s = Booked) \<and>
   sessions (snd (guardEntry spec_schema 50 (ObjectId 7) (ObjectId 1) example_reserved)) =
     [example_booked\<lparr>status := Active, startTime := 50\<rparr>] \<and>
   lots (snd (guardEntry spec_schema 50 (ObjectId 7) (ObjectId 1) example_reserved)) = lots example_reserved \<and>
   sessions example_db = [] \<and>
   lots example_db 1 = Some example_lot \<and>
   map status (sessions (snd (guardEntry spec_schema 50 (ObjectId 7) (ObjectId 1) example_db))) = [Active] \<and>
   map_option occupiedSpots (lots (snd (guardEntry spec_schema 50 (ObjectId 7) (ObjectId 1) example_db)) 1) = Some 1"
  using guardEntry_wellformed_succeeds [where sch = spec_schema and now = 50 and userId = 7
          and lid = 1 and st = example_reserved and anyLot = Malformed and anyUser = Malformed]
    guardEntry_wellformed_succeeds [where sch = spec_schema and now = 50 and userId = 7
          and lid = 1 and st = example_db and anyLot = Malformed and anyUser = Malformed]
  by (auto simp: example_reserved_def example_db_def example_booked_def example_lot_def)

text \<open>
  Claim C3 as stated fails for a request whose \<open>parkingLotId\<close> cannot be cast to an id:
  \<^verbatim>\<open>ParkingLot.findById\<close> is rejected, the handler answers nothing itself and hands
  the error to \<^verbatim>\<open>next(error)\<close>.
\<close>

theorem guardEntry_malformed_counterexample:
  "guardEntry spec_schema 50 (ObjectId 7) Malformed example_db = (Next CastError, example_db) \<and>
   http_status (fst (guardEntry spec_schema 50 (ObjectId 7) Malformed example_db)) = None"
  by (simp add: guardEntry_def)

section \<open>Starting a session\<close>

text \<open>
  Claim C5. \<open>startSession\<close> answers 400 and returns the database as it was when the
  caller already has an active session. Otherwise it appends one session of the caller at
  the chosen lot and raises that lot's \<open>occupiedSpots\<close> by 1 (no other lot changes). The
  handler passes only user, lot and vehicle type to \<^verbatim>\<open>ParkingSession.create\<close>, so the
  new session's status, slots and start time are the schema's defaults: with the defaults
  of the data model (active, 1, the creation time) the session is active, has 1 slot and
  starts now.
\<close>

theorem startSession_single_active:
  assumes "default_status sch = Active" and "default_slots sch = 1"
    and "default_startTime sch now = now"
  shows
    "((\<exists>s\<in>set (sessions st). user s = caller \<and> status s = Active) \<longrightarrow>
        startSession sch now caller lid vehicle st =
          (fail 400 ''User already has an active session'', st)) \<and>
     ((\<forall>s\<in>set (sessions st). \<not> (user s = caller \<and> status s = Active)) \<longrightarrow>
        (\<exists>s st'. startSession sch now caller lid vehicle st =
                   (ok 201 None (length (sessions st), s), st') \<and>
           sessions st' = sessions st @ [s] \<and>
           user s = caller \<and> parkingLot s = lid \<and>
           status s = Active \<and> slots s = 1 \<and> startTime s = now \<and>
           (\<forall>l. lots st lid = Some l \<longrightarrow>
              (\<exists>l'. lots st' lid = Some l' \<and> occupiedSpots l' = occupiedSpots l + 1 \<and>
                    totalSpots l' = totalSpots l)) \<and>
           (\<forall>k. k \<noteq> lid \<longrightarrow> lots st' k = lots st k)))"
proof (intro conjI impI)
  assume "\<exists>s\<in>set (sessions st). user s = caller \<and> status s = Active"
  then show "startSession sch now caller lid vehicle st =
          (fail 400 ''User already has an active session'', st)"
    by (rule startSession_duplicate)
next
  assume "\<forall>s\<in>set (sessions st). \<not> (user s = caller \<and> status s = Active)"
  from startSession_new [OF this, of sch now lid vehicle] assms
  show "\<exists>s st'. startSession sch now caller lid vehicle st =
                   (ok 201 None (length (sessions st), s), st') \<and>
           sessions st' = sessions st @ [s] \<and>
           user s = caller \<and> parkingLot s = lid \<and>
           status s = Active \<and> slots s = 1 \<and> startTime s = now \<and>
           (\<forall>l. lots st lid = Some l \<longrightarrow>
              (\<exists>l'. lots st' lid = Some l' \<and> occupiedSpots l' = occupiedSpots l + 1 \<and>
                    totalSpots l' = totalSpots l)) \<and>
           (\<forall>k. k \<noteq> lid \<longrightarrow> lots st' k = lots st k)"
    by (simp add: sync_sessions sync_lots sync_other)
qed

theorem startSession_single_active_witness:
  "default_status spec_schema = Active \<and> default_slots spec_schema = 1 \<and>
   default_startTime spec_schema 50 = 50 \<and>
   (\<exists>s\<in>set (sessions example_parked). user s = 7 \<and> status s = Active) \<and>
   startSession spec_schema 50 7 1 (Some ''car'') example_parked =
     (fail 400 ''User already has an active session'', example_parked) \<and>
   sessions example_db = [] \<and>
   lots example_db 1 = Some example_lot \<and>
   sessions (snd (startSession spec_schema 50 7 1 (Some ''car'') example_db)) =
     [\<lparr>user = 7, parkingLot = 1, status = Active, vehicleType = Some ''car'', slots = 1,
       startTime = 50, endTime = None, totalAmount = None, createdAt = 50\<rparr>] \<and>
   map_option occupiedSpots (lots (snd (startSession spec_schema 50 7 1 (Some ''car'') example_db)) 1)
     = Some 1"
  using startSession_single_active [of spec_schema 50 example_parked 7 1 "Some ''car''"]
    startSession_single_active [of spec_schema 50 example_db 7 1 "Some ''car''"]
  apply (simp add: spec_schema_def)
  apply (simp add: example_parked_def example_active_def example_db_def example_lot_def
      startSession_def findOne_def ParkingSession_create_def syncLotStatus_def
      findByIdAndUpdate_def resolveLotStatus_def Let_def)
  done

section \<open>Session life cycle\<close>

text \<open>
  Claim C4. A session that is completed or canceled is never modified again: after any
  run of requests to the mutating routes (\<open>startSession\<close>, \<open>bookParking\<close>,
  \<open>guardEntry\<close>, \<open>guardExit\<close>, \<open>cancelBooking\<close>, \<open>completeSession\<close>), at any times
  and with any arguments, the session is still there with every field as it was. And a
  single request changes only sessions that were booked or active before it.
\<close>

theorem terminal_sessions_absorbing:
  assumes "i < length (sessions st)"
    and "status (sessions st ! i) = Completed \<or> status (sessions st ! i) = Canceled"
  shows "i < length (sessions (run sch rs st)) \<and>
         sessions (run sch rs st) ! i = sessions st ! i \<and>
         (\<forall>j<length (sessions st).
             sessions (snd (handle sch now r st)) ! j \<noteq> sessions st ! j \<longrightarrow>
             status (sessions st ! j) = Booked \<or> status (sessions st ! j) = Active)"
proof -
  from assms(2) have n: "status (sessions st ! i) \<noteq> Booked" "status (sessions st ! i) \<noteq> Active"
    by auto
  have "status (sessions st ! j) = Booked \<or> status (sessions st ! j) = Active"
    if "j < length (sessions st)" "sessions (snd (handle sch now r st)) ! j \<noteq> sessions st ! j"
    for j
    using handle_keeps [OF that(1), of sch now r] that(2) by blast
  with run_keeps [OF assms(1) n, of sch rs] show ?thesis by blast
qed

theorem terminal_sessions_absorbing_witness:
  "0 < length (sessions example_settled) \<and>
   (status (sessions example_settled ! 0) = Completed \<or>
    status (sessions example_settled ! 0) = Canceled) \<and>
   sessions (run spec_schema example_requests example_settled) ! 0 =
     example_active\<lparr>endTime := Some 2700000, totalAmount := Some 100, status := Completed\<rparr>"
  using terminal_sessions_absorbing [where i = 0 and st = example_settled and sch = spec_schema
          and rs = example_requests]
  by (simp add: example_settled_def)

text \<open>
  Claim C6 at a failing input. The guard checks user 7 in at the example lot twice, with
  no booking: \<open>guardEntry\<close> creates a walk-in session each time, without the check for
  an active session that \<open>startSession\<close> makes, so the user has two active sessions.
  The first \<open>completeSession\<close> settles one of them and answers 200; the second call
  right after it answers 200 again, not 404: it settles the other session and releases
  its slot, taking the lot's \<open>occupiedSpots\<close> from 2 to 1 and then to 0.
\<close>

theorem second_completeSession_settles_again:
  "http_status (fst (completeSession 100 7 example_two_entries)) = Some 200 \<and>
   http_status (fst (completeSession 200 7 (snd (completeSession 100 7 example_two_entries))))
     = Some 200 \<and>
   map_option occupiedSpots (lots (snd (completeSession 100 7 example_two_entries)) 1) = Some 1 \<and>
   map_option occupiedSpots
     (lots (snd (completeSession 200 7 (snd (completeSession 100 7 example_two_entries)))) 1)
     = Some 0"
  by (simp add: example_two_entries_eq example_lot_def completeSession_def findOne_def save_def
        syncLotStatus_def findByIdAndUpdate_def resolveLotStatus_def slotsToRelease_def
        durationHours_def ok_def Let_def)

section \<open>A session whose lot is gone\<close>

text \<open>
  Claim C9 at a failing input. User 7 starts a session at lot 9, which does not exist:
  \<open>startSession\<close> answers 201, the sync being a no-op. Settling that session aborts:
  \<open>completeSession\<close> and \<open>guardExit\<close> read \<^verbatim>\<open>session.parkingLot.pricePerHour\<close> of
  the populated lot, which is null, so the \<open>TypeError\<close> goes to \<^verbatim>\<open>next(error)\<close>
  before the session is saved and before \<open>syncLotStatus\<close> is reached; the session stays
  active and the caller gets an error.
\<close>

theorem settlement_aborts_on_missing_lot:
  "http_status (fst (startSession spec_schema 0 7 9 None example_db)) = Some 201 \<and>
   lots example_orphan 9 = None \<and>
   sessions example_orphan =
     [\<lparr>user = 7, parkingLot = 9, status = Active, vehicleType = None, slots = 1,
       startTime = 0, endTime = None, totalAmount = None, createdAt = 0\<rparr>] \<and>
   completeSession 100 7 example_orphan = (Next TypeError, example_orphan) \<and>
   guardExit 100 7 9 example_orphan = (Next TypeError, example_orphan)"
  by (simp add: example_orphan_def example_db_def spec_schema_def startSession_def
        completeSession_def guardExit_def findOne_def ParkingSession_create_def
        syncLotStatus_def findByIdAndUpdate_def ok_def Let_def)

end
